theory Spec2Isabelle
  imports Complex_Main "HOL-Library.Sublist"
begin

section \<open>DiscordOps-Monitor: the host monitor of \<^verbatim>\<open>main.py\<close>\<close>

text \<open>
  The development follows \<^verbatim>\<open>main.py\<close>: the process sampler
  (\<^verbatim>\<open>snapshot_top_processes\<close>), the CPU watchdog (\<^verbatim>\<open>CPUWatchdog\<close>), the termination
  safeguard (\<^verbatim>\<open>safe_terminate_pid\<close>), the rolling CPU history (\<^verbatim>\<open>CPU_HISTORY\<close>) and the
  \<^verbatim>\<open>/terminate\<close> command with its per-user cache.

  Conventions. Python floats are modelled as \<^typ>\<open>real\<close> (no rounding, no NaN), Python
  ints as \<^typ>\<open>int\<close>, strings as \<^typ>\<open>string\<close>. Everything the code obtains from
  \<^verbatim>\<open>psutil\<close>, from the clock or from another task is an explicit input of the model; what
  the code does to the operating system is returned as a list of actions.
\<close>

subsection \<open>Exceptions\<close>

text \<open>
  The exceptions (all deriving from \<^verbatim>\<open>Exception\<close>) that the calls into \<^verbatim>\<open>psutil\<close> can raise.
  Each carries the text of its \<^verbatim>\<open>repr\<close>. \<^verbatim>\<open>ZombieProcess\<close> is a subclass of
  \<^verbatim>\<open>NoSuchProcess\<close> and is represented by it; \<open>OtherException\<close> stands for every
  other class (\<^verbatim>\<open>ValueError\<close>, \<^verbatim>\<open>OSError\<close>, ...).
\<close>

datatype exn =
    NoSuchProcess string
  | AccessDenied string
  | TimeoutExpired string
  | OtherException string

fun repr :: "exn \<Rightarrow> string" where
  "repr (NoSuchProcess s) = s"
| "repr (AccessDenied s) = s"
| "repr (TimeoutExpired s) = s"
| "repr (OtherException s) = s"

subsection \<open>Formatting integers\<close>

text \<open>\<^verbatim>\<open>str(i)\<close> for a Python int, as the f-strings of the source use it.\<close>

definition digit_char :: "nat \<Rightarrow> char" where
  "digit_char d = ''0123456789'' ! d"

function str_nat :: "nat \<Rightarrow> string" where
  "str_nat n = (if n < 10 then [digit_char n] else str_nat (n div 10) @ [digit_char (n mod 10)])"
  by pat_completeness auto
termination
  by (relation "measure id") auto

declare str_nat.simps [simp del]

definition str_int :: "int \<Rightarrow> string" where
  "str_int i = (if i < 0 then CHR ''-'' # str_nat (nat (- i)) else str_nat (nat i))"

subsection \<open>Python list operations\<close>

text \<open>\<^verbatim>\<open>xs[:n]\<close>: a negative bound counts from the end.\<close>

definition slice_to :: "int \<Rightarrow> 'a list \<Rightarrow> 'a list" where
  "slice_to n xs = (if 0 \<le> n then take (nat n) xs else take (length xs - nat (- n)) xs)"

text \<open>
  \<^verbatim>\<open>xs[i]\<close>: a negative index counts from the end, and an index outside the list raises
  \<^verbatim>\<open>IndexError\<close> (here \<open>None\<close>).
\<close>

definition item :: "'a list \<Rightarrow> int \<Rightarrow> 'a option" where
  "item xs i =
     (let j = (if i < 0 then i + int (length xs) else i)
      in if 0 \<le> j \<and> j < int (length xs) then Some (xs ! nat j) else None)"

subsection \<open>Process Sampler: \<^verbatim>\<open>snapshot_top_processes\<close>\<close>

text \<open>
  One entry of the returned list, the dict \<^verbatim>\<open>{'pid': .., 'name': .., 'cpu': ..}\<close>.
\<close>

record row =
  row_pid :: int
  row_name :: string
  row_cpu :: real

text \<open>
  One process as \<^verbatim>\<open>psutil.process_iter(["pid", "name"])\<close> yields it: its pid, the
  \<^verbatim>\<open>name\<close> entry of \<^verbatim>\<open>p.info\<close> (which may be \<^verbatim>\<open>None\<close>), and what the two calls of
  \<^verbatim>\<open>p.cpu_percent(None)\<close> do: the priming call of the first loop and the reading of the
  second one, each returning a float or raising.
\<close>

record proc =
  proc_pid :: int
  info_name :: "string option"
  prime :: "exn + real"
  reread :: "exn + real"

text \<open>\<^verbatim>\<open>except (psutil.NoSuchProcess, psutil.AccessDenied): continue\<close>\<close>

fun skipped :: "exn \<Rightarrow> bool" where
  "skipped (NoSuchProcess _) = True"
| "skipped (AccessDenied _) = True"
| "skipped _ = False"

text \<open>\<^verbatim>\<open>psutil.cpu_count(logical=True) or 1\<close>: \<^verbatim>\<open>None\<close> and \<^verbatim>\<open>0\<close> are falsy.\<close>

definition cpu_count_or_1 :: "int option \<Rightarrow> int" where
  "cpu_count_or_1 c = (case c of None \<Rightarrow> 1 | Some k \<Rightarrow> if k = 0 then 1 else k)"

text \<open>The first loop: prime every process, keep those whose priming call returned.\<close>

fun prime_all :: "proc list \<Rightarrow> exn + proc list" where
  "prime_all [] = Inr []"
| "prime_all (p # ps) =
     (case prime p of
        Inr _ \<Rightarrow> (case prime_all ps of Inl e \<Rightarrow> Inl e | Inr qs \<Rightarrow> Inr (p # qs))
      | Inl e \<Rightarrow> if skipped e then prime_all ps else Inl e)"

text \<open>\<^verbatim>\<open>(p.info.get("name") or f"pid-{p.pid}")[:64]\<close>\<close>

definition display_name :: "proc \<Rightarrow> string" where
  "display_name p =
     take 64 (case info_name p of
                None \<Rightarrow> ''pid-'' @ str_int (proc_pid p)
              | Some s \<Rightarrow> if s = [] then ''pid-'' @ str_int (proc_pid p) else s)"

text \<open>\<^verbatim>\<open>max(0.0, raw / cpu_count)\<close>\<close>

definition normalized :: "real \<Rightarrow> int \<Rightarrow> real" where
  "normalized raw cpu_count = max 0 (raw / real_of_int cpu_count)"

text \<open>The second loop: read every primed process again and build its row.\<close>

fun read_all :: "int \<Rightarrow> proc list \<Rightarrow> exn + row list" where
  "read_all cpu_count [] = Inr []"
| "read_all cpu_count (p # ps) =
     (case reread p of
        Inr raw \<Rightarrow>
          (case read_all cpu_count ps of
             Inl e \<Rightarrow> Inl e
           | Inr rs \<Rightarrow>
               Inr (\<lparr>row_pid = proc_pid p, row_name = display_name p,
                     row_cpu = normalized raw cpu_count\<rparr> # rs))
      | Inl e \<Rightarrow> if skipped e then read_all cpu_count ps else Inl e)"

text \<open>
  \<^verbatim>\<open>rows.sort(key=lambda r: r["cpu"], reverse=True)\<close>: Python's sort is stable, also with
  \<^verbatim>\<open>reverse=True\<close> (rows of equal key keep their order), which is the stable ascending
  sort on the negated key.
\<close>

definition sort_cpu_desc :: "row list \<Rightarrow> row list" where
  "sort_cpu_desc rs = sort_key (\<lambda>r. - row_cpu r) rs"

text \<open>
  The sampler, for the requested number of rows \<open>n\<close>, the value of
  \<^verbatim>\<open>psutil.cpu_count(logical=True)\<close> and the processes enumerated. The delay between the
  two loops has no effect on the model. An exception that is not skipped leaves the function.
\<close>

definition snapshot_top_processes :: "int \<Rightarrow> int option \<Rightarrow> proc list \<Rightarrow> exn + row list" where
  "snapshot_top_processes n reported procs =
     (let cpu_count = cpu_count_or_1 reported in
      case prime_all procs of
        Inl e \<Rightarrow> Inl e
      | Inr primed \<Rightarrow>
          (case read_all cpu_count primed of
             Inl e \<Rightarrow> Inl e
           | Inr rs \<Rightarrow> Inr (slice_to n (sort_cpu_desc rs))))"

text \<open>A call that returned, and the processes that get through both loops.\<close>

fun returned :: "exn + 'a \<Rightarrow> bool" where
  "returned (Inr _) = True"
| "returned (Inl _) = False"

definition survived :: "proc \<Rightarrow> bool" where
  "survived p = (returned (prime p) \<and> returned (reread p))"

definition non_increasing :: "row list \<Rightarrow> bool" where
  "non_increasing rs = sorted_wrt (\<lambda>a b. row_cpu b \<le> row_cpu a) rs"

subsection \<open>CPU alert watchdog: \<^verbatim>\<open>CPUWatchdog\<close>\<close>

text \<open>The fields that \<^verbatim>\<open>__init__\<close> sets.\<close>

record watchdog =
  webhook :: string
  threshold :: real
  cooldown :: int
  last_alert_ts :: real
  over_counter :: int

text \<open>\<^verbatim>\<open>CPUWatchdog.__init__(webhook, threshold, cooldown)\<close>\<close>

definition CPUWatchdog :: "string \<Rightarrow> real \<Rightarrow> int \<Rightarrow> watchdog" where
  "CPUWatchdog wh th cd =
     \<lparr>webhook = wh, threshold = th, cooldown = cd, last_alert_ts = 0, over_counter = 0\<rparr>"

text \<open>The watchdog that \<^verbatim>\<open>Bot.__init__\<close> builds, with the defaults 90.0 and 300.\<close>

definition Bot_watchdog :: "string \<Rightarrow> watchdog" where
  "Bot_watchdog cpu_alert_webhook = CPUWatchdog cpu_alert_webhook 90 300"

text \<open>
  \<^verbatim>\<open>_send_webhook_alert(total_pct, top3)\<close>: nothing is sent when no webhook is configured;
  otherwise one message built from the total and the rows is posted (a failure of the post
  is swallowed). The result is what was posted.
\<close>

definition send_webhook_alert :: "watchdog \<Rightarrow> real \<Rightarrow> row list \<Rightarrow> (real \<times> row list) option" where
  "send_webhook_alert w total_pct top3 = (if webhook w = [] then None else Some (total_pct, top3))"

text \<open>
  What one pass of the loop of \<^verbatim>\<open>run\<close> obtains from outside: the reading of
  \<^verbatim>\<open>psutil.cpu_percent(interval=1.0)\<close>, the clock \<^verbatim>\<open>time.time()\<close> in the condition, the
  outcome of \<^verbatim>\<open>await snapshot_top_processes(3)\<close>, and the clock stored into
  \<^verbatim>\<open>_last_alert_ts\<close> after the alert.
\<close>

record cycle =
  total :: real
  time_at_check :: real
  top3 :: "exn + row list"
  time_at_record :: real

text \<open>What a pass did: nothing, or an alert handed to \<^verbatim>\<open>_send_webhook_alert\<close>.\<close>

datatype event = Quiet | Fired "(real \<times> row list) option"

text \<open>
  One pass of the \<^verbatim>\<open>while True\<close> loop. An exception of the sampler is not caught in
  \<^verbatim>\<open>run\<close> and ends the task.
\<close>

definition run_cycle :: "watchdog \<Rightarrow> cycle \<Rightarrow> exn + watchdog \<times> event" where
  "run_cycle w c =
     (if threshold w \<le> total c then
        let w1 = w\<lparr>over_counter := over_counter w + 1\<rparr> in
        if 2 \<le> over_counter w1 \<and> real_of_int (cooldown w1) < time_at_check c - last_alert_ts w1 then
          (case top3 c of
             Inl e \<Rightarrow> Inl e
           | Inr rows \<Rightarrow>
               Inr (w1\<lparr>last_alert_ts := time_at_record c\<rparr>,
                    Fired (send_webhook_alert w1 (total c) rows)))
        else Inr (w1, Quiet)
      else Inr (w\<lparr>over_counter := 0\<rparr>, Quiet))"

text \<open>
  The loop over the passes for which inputs are given: the outcome of each pass, in order.
  The loop has no exit of its own; an uncaught exception is the last outcome.
\<close>

fun run :: "watchdog \<Rightarrow> cycle list \<Rightarrow> (exn + watchdog \<times> event) list" where
  "run w [] = []"
| "run w (c # cs) =
     (case run_cycle w c of
        Inl e \<Rightarrow> [Inl e]
      | Inr (w', ev) \<Rightarrow> Inr (w', ev) # run w' cs)"

text \<open>Observations of a run: did a pass fire, and the counter after each completed pass.\<close>

fun fired :: "exn + watchdog \<times> event \<Rightarrow> bool" where
  "fired (Inr (w, Fired p)) = True"
| "fired _ = False"

fun counters :: "(exn + watchdog \<times> event) list \<Rightarrow> int list" where
  "counters [] = []"
| "counters (Inr (w, ev) # rs) = over_counter w # counters rs"
| "counters (Inl e # rs) = counters rs"

text \<open>
  The clock readings of the passes that fired: the one compared with the cooldown and the
  one stored as \<^verbatim>\<open>_last_alert_ts\<close>.
\<close>

fun fire_times :: "cycle list \<Rightarrow> (exn + watchdog \<times> event) list \<Rightarrow> (real \<times> real) list" where
  "fire_times (c # cs) (r # rs) =
     (if fired r then (time_at_check c, time_at_record c) # fire_times cs rs
      else fire_times cs rs)"
| "fire_times _ _ = []"

text \<open>
  Every alert after the first is checked more than the cooldown after the time stored for
  the alert before it.
\<close>

fun spaced :: "real \<Rightarrow> (real \<times> real) list \<Rightarrow> bool" where
  "spaced cd (a # b # ts) = (cd < fst b - snd a \<and> spaced cd (b # ts))"
| "spaced cd _ = True"

subsection \<open>Termination safeguard: \<^verbatim>\<open>safe_terminate_pid\<close>\<close>

definition SYSTEM_NAMES :: "string set" where
  "SYSTEM_NAMES = {''System Idle Process'', ''System'', ''Registry'', ''MemCompression''}"

definition PROTECTED_PIDS :: "int set" where
  "PROTECTED_PIDS = {0, 4}"

text \<open>
  A process object \<^verbatim>\<open>psutil.Process(pid)\<close>, given by what each of its methods does when
  \<^verbatim>\<open>safe_terminate_pid\<close> calls it (each is called at most once): return, or raise.
\<close>

record process =
  p_name :: "exn + string"
  p_terminate :: "exn + unit"
  p_wait :: "exn + unit"
  p_kill :: "exn + unit"

text \<open>The host: what \<^verbatim>\<open>psutil.Process(pid)\<close> does for each pid.\<close>

type_synonym host = "int \<Rightarrow> exn + process"

text \<open>The calls made on the host, in the order they are made.\<close>

datatype action = Resolve int | ReadName | Terminate | Wait real | Kill

fun is_timeout :: "exn \<Rightarrow> bool" where
  "is_timeout (TimeoutExpired _) = True"
| "is_timeout _ = False"

text \<open>\<^verbatim>\<open>f"Terminated **{name}** (PID {pid})."\<close>\<close>

definition terminated_msg :: "string \<Rightarrow> int \<Rightarrow> string" where
  "terminated_msg name pid = ''Terminated **'' @ name @ ''** (PID '' @ str_int pid @ '').''"

text \<open>The body of the \<^verbatim>\<open>try\<close>: its result or the exception that leaves it, and the calls made.\<close>

definition terminate_attempt :: "host \<Rightarrow> int \<Rightarrow> real \<Rightarrow> (exn + bool \<times> string) \<times> action list" where
  "terminate_attempt host pid timeout =
     (if pid \<in> PROTECTED_PIDS then
        (Inr (False, ''Refusing to terminate a protected system process.''), [])
      else case host pid of
        Inl e \<Rightarrow> (Inl e, [Resolve pid])
      | Inr p \<Rightarrow>
          (case p_name p of
             Inl e \<Rightarrow> (Inl e, [Resolve pid, ReadName])
           | Inr name \<Rightarrow>
               if name \<in> SYSTEM_NAMES then
                 (Inr (False, ''Refusing to terminate critical process: '' @ name @ ''.''),
                  [Resolve pid, ReadName])
               else
                 (case p_terminate p of
                    Inl e \<Rightarrow> (Inl e, [Resolve pid, ReadName, Terminate])
                  | Inr _ \<Rightarrow>
                      (case p_wait p of
                         Inr _ \<Rightarrow>
                           (Inr (True, terminated_msg name pid),
                            [Resolve pid, ReadName, Terminate, Wait timeout])
                       | Inl e \<Rightarrow>
                           if is_timeout e then
                             (case p_kill p of
                                Inl e' \<Rightarrow>
                                  (Inl e', [Resolve pid, ReadName, Terminate, Wait timeout, Kill])
                              | Inr _ \<Rightarrow>
                                  (Inr (True, terminated_msg name pid),
                                   [Resolve pid, ReadName, Terminate, Wait timeout, Kill]))
                           else (Inl e, [Resolve pid, ReadName, Terminate, Wait timeout])))))"

text \<open>The three \<^verbatim>\<open>except\<close> clauses, in their order.\<close>

fun handler :: "exn \<Rightarrow> exn + bool \<times> string" where
  "handler (NoSuchProcess _) = Inr (False, ''Process no longer exists.'')"
| "handler (AccessDenied _) = Inr (False, ''Access denied. Run the bot with sufficient privileges.'')"
| "handler e = Inr (False, ''Unexpected error: '' @ repr e)"

definition safe_terminate_pid :: "host \<Rightarrow> int \<Rightarrow> real \<Rightarrow> (exn + bool \<times> string) \<times> action list" where
  "safe_terminate_pid host pid timeout =
     (case terminate_attempt host pid timeout of
        (Inl e, acts) \<Rightarrow> (handler e, acts)
      | (Inr r, acts) \<Rightarrow> (Inr r, acts))"

subsection \<open>Rolling history: \<^verbatim>\<open>CPU_HISTORY\<close>\<close>

text \<open>
  \<^verbatim>\<open>deque.append\<close> on a deque with \<^verbatim>\<open>maxlen\<close>: the item goes to the right end and, once the
  length passes \<^verbatim>\<open>maxlen\<close>, the leftmost item is dropped; with \<^verbatim>\<open>maxlen = 0\<close> nothing
  is kept.
\<close>

definition deque_append :: "nat \<Rightarrow> 'a list \<Rightarrow> 'a \<Rightarrow> 'a list" where
  "deque_append maxlen d v =
     (if maxlen = 0 then d
      else if maxlen < length (d @ [v]) then tl (d @ [v]) else d @ [v])"

text \<open>\<^verbatim>\<open>CPU_HISTORY = deque(maxlen=150)\<close>\<close>

definition CPU_HISTORY_maxlen :: nat where
  "CPU_HISTORY_maxlen = 150"

definition CPU_HISTORY :: "real list" where
  "CPU_HISTORY = []"

text \<open>
  \<^verbatim>\<open>_cpu_history_collector\<close>: one append per pass of its \<^verbatim>\<open>while True\<close> loop, for the
  readings of the passes made so far.
\<close>

fun cpu_history_collector :: "'a list \<Rightarrow> 'a list \<Rightarrow> 'a list" where
  "cpu_history_collector history [] = history"
| "cpu_history_collector history (v # vs) =
     cpu_history_collector (deque_append CPU_HISTORY_maxlen history v) vs"

subsection \<open>The \<^verbatim>\<open>/terminate\<close> command and the per-user cache\<close>

text \<open>An entry of \<^verbatim>\<open>_last_topcpu_by_user\<close>: \<^verbatim>\<open>{'at': ts, 'rows': rows}\<close>.\<close>

record cached =
  cache_at :: real
  cache_rows :: "row list"

text \<open>\<^verbatim>\<open>/topcpu\<close>: the rows of \<^verbatim>\<open>snapshot_top_processes(10)\<close> are stored for the user.\<close>

definition topcpu ::
  "(int \<rightharpoonup> cached) \<Rightarrow> real \<Rightarrow> int \<Rightarrow> int option \<Rightarrow> proc list \<Rightarrow> exn + (int \<rightharpoonup> cached)" where
  "topcpu last_topcpu_by_user now user reported procs =
     (case snapshot_top_processes 10 reported procs of
        Inl e \<Rightarrow> Inl e
      | Inr rows \<Rightarrow> Inr (last_topcpu_by_user(user \<mapsto> \<lparr>cache_at = now, cache_rows = rows\<rparr>)))"

text \<open>
  What the command answers: the value given for the index is not accepted, no list that can
  be used, an index beyond the list, the result of the safeguard, or an exception that
  leaves the callback.
\<close>

datatype reply =
    IndexNotInRange
  | NoRecentList
  | IndexOutOfRange nat
  | TerminateResult bool string
  | IndexErrorRaised
  | Raised exn

text \<open>
  The parameter of the command is declared \<^verbatim>\<open>index: app_commands.Range[int, 1, 10]\<close>: the
  integers that the command accepts for it.
\<close>

definition index_in_Range :: "int \<Rightarrow> bool" where
  "index_in_Range index = (1 \<le> index \<and> index \<le> 10)"

text \<open>
  The body of the callback \<^verbatim>\<open>terminate(interaction, index)\<close>, for the cache, the clock and
  the calling user: the reply and the calls made on the host.
\<close>

definition terminate_callback ::
  "host \<Rightarrow> (int \<rightharpoonup> cached) \<Rightarrow> real \<Rightarrow> int \<Rightarrow> int \<Rightarrow> reply \<times> action list" where
  "terminate_callback host last_topcpu_by_user now user index =
     (case last_topcpu_by_user user of
        None \<Rightarrow> (NoRecentList, [])
      | Some cache \<Rightarrow>
          if 600 < now - cache_at cache then (NoRecentList, [])
          else
            let rows = cache_rows cache in
            if int (length rows) < index then (IndexOutOfRange (length rows), [])
            else
              (case item rows (index - 1) of
                 None \<Rightarrow> (IndexErrorRaised, [])
               | Some target \<Rightarrow>
                   (case safe_terminate_pid host (row_pid target) 3 of
                      (Inr (ok, msg), acts) \<Rightarrow> (TerminateResult ok msg, acts)
                    | (Inl e, acts) \<Rightarrow> (Raised e, acts))))"

text \<open>
  The command \<^verbatim>\<open>/terminate\<close> as declared: an index outside the declared range is not
  accepted and the callback does not run; otherwise the callback runs with it.
\<close>

definition terminate ::
  "host \<Rightarrow> (int \<rightharpoonup> cached) \<Rightarrow> real \<Rightarrow> int \<Rightarrow> int \<Rightarrow> reply \<times> action list" where
  "terminate host last_topcpu_by_user now user index =
     (if index_in_Range index then terminate_callback host last_topcpu_by_user now user index
      else (IndexNotInRange, []))"

text \<open>The two answers that reject an index as out of range.\<close>

fun out_of_range :: "reply \<Rightarrow> bool" where
  "out_of_range IndexNotInRange = True"
| "out_of_range (IndexOutOfRange _) = True"
| "out_of_range _ = False"

subsection \<open>Vocabulary of the properties\<close>

text \<open>
  A sequence of total-CPU readings in which no two consecutive readings are both at or above
  the threshold.
\<close>

fun no_breach_pair :: "real \<Rightarrow> real list \<Rightarrow> bool" where
  "no_breach_pair th (a # b # xs) = ((a < th \<or> b < th) \<and> no_breach_pair th (b # xs))"
| "no_breach_pair th _ = True"

subsection \<open>Concrete inputs\<close>

text \<open>
  Six processes: one with a negative raw reading, two that vanish or are denied in one of
  the loops, two without a usable name and with equal readings, and a busy one.
\<close>

definition example_procs :: "proc list" where
  "example_procs =
     [\<lparr>proc_pid = 11, info_name = Some ''idle'', prime = Inr 0, reread = Inr (- 4)\<rparr>,
      \<lparr>proc_pid = 12, info_name = None, prime = Inr 0, reread = Inr 120\<rparr>,
      \<lparr>proc_pid = 13, info_name = Some ''gone'', prime = Inr 0,
         reread = Inl (NoSuchProcess ''psutil.NoSuchProcess(pid=13)'')\<rparr>,
      \<lparr>proc_pid = 14, info_name = Some ''locked'',
         prime = Inl (AccessDenied ''psutil.AccessDenied(pid=14)''), reread = Inr 7\<rparr>,
      \<lparr>proc_pid = 15, info_name = Some [], prime = Inr 0, reread = Inr 120\<rparr>,
      \<lparr>proc_pid = 16, info_name = Some ''busy'', prime = Inr 0, reread = Inr 300\<rparr>]"

text \<open>
  A host with a process that ignores \<^verbatim>\<open>terminate()\<close> (100), one that exits at once (101),
  one with a protected name (102), one that may not be inspected (103) and one whose
  \<^verbatim>\<open>terminate()\<close> fails with an operating-system error (104); no other pid exists.
\<close>

definition example_host :: host where
  "example_host pid =
     (if pid = 100 then
        Inr \<lparr>p_name = Inr ''worker'', p_terminate = Inr (),
             p_wait = Inl (TimeoutExpired ''psutil.TimeoutExpired(seconds=3.0, pid=100)''),
             p_kill = Inr ()\<rparr>
      else if pid = 101 then
        Inr \<lparr>p_name = Inr ''sleeper'', p_terminate = Inr (), p_wait = Inr (), p_kill = Inr ()\<rparr>
      else if pid = 102 then
        Inr \<lparr>p_name = Inr ''Registry'', p_terminate = Inr (), p_wait = Inr (), p_kill = Inr ()\<rparr>
      else if pid = 103 then Inl (AccessDenied ''psutil.AccessDenied(pid=103)'')
      else if pid = 104 then
        Inr \<lparr>p_name = Inr ''stuck'', p_terminate = Inl (OtherException ''OSError(5)''),
             p_wait = Inr (), p_kill = Inr ()\<rparr>
      else Inl (NoSuchProcess ''psutil.NoSuchProcess(pid)''))"

text \<open>A cache with a list of two rows for user 7 and an empty list for user 8.\<close>

definition example_cache :: "int \<rightharpoonup> cached" where
  "example_cache =
     [7 \<mapsto> \<lparr>cache_at = 1000,
            cache_rows = [\<lparr>row_pid = 101, row_name = ''sleeper'', row_cpu = 40\<rparr>,
                          \<lparr>row_pid = 100, row_name = ''worker'', row_cpu = 12\<rparr>]\<rparr>,
      8 \<mapsto> \<lparr>cache_at = 1000, cache_rows = []\<rparr>]"

section \<open>Properties of the watchdog\<close>

lemma run_cycle_params:
  "run_cycle w c = Inr (w', ev) \<Longrightarrow>
     threshold w' = threshold w \<and> cooldown w' = cooldown w \<and> webhook w' = webhook w"
  by (auto simp: run_cycle_def Let_def split: if_splits sum.splits)

lemma run_cycle_fired:
  "run_cycle w c = Inr (w', Fired p) \<Longrightarrow>
     over_counter w' = over_counter w + 1 \<and> 2 \<le> over_counter w' \<and>
     real_of_int (cooldown w) < time_at_check c - last_alert_ts w \<and>
     last_alert_ts w' = time_at_record c"
  by (auto simp: run_cycle_def Let_def split: if_splits sum.splits)

lemma run_cycle_quiet:
  "run_cycle w c = Inr (w', Quiet) \<Longrightarrow> last_alert_ts w' = last_alert_ts w"
  by (auto simp: run_cycle_def Let_def split: if_splits sum.splits)

lemma run_cycle_over:
  "threshold w \<le> total c \<Longrightarrow> run_cycle w c = Inr (w', ev) \<Longrightarrow>
     over_counter w' = over_counter w + 1"
  by (auto simp: run_cycle_def Let_def split: if_splits sum.splits)

lemma run_cycle_below:
  "total c < threshold w \<Longrightarrow> run_cycle w c = Inr (w\<lparr>over_counter := 0\<rparr>, Quiet)"
  by (simp add: run_cycle_def)

text \<open>
  Along a run, the first alert is checked more than the cooldown after the time stored in
  the starting state, and each later one more than the cooldown after the time stored for
  the alert before it.
\<close>

lemma spaced_run:
  "spaced (real_of_int (cooldown w)) ((t, last_alert_ts w) # fire_times cs (run w cs))"
proof (induction cs arbitrary: w t)
  case Nil
  show ?case by simp
next
  case (Cons c cs)
  show ?case
  proof (cases "run_cycle w c")
    case (Inl e)
    then show ?thesis by simp
  next
    case (Inr r)
    obtain w' ev where r: "r = (w', ev)" by (cases r)
    have cd: "cooldown w' = cooldown w"
      using run_cycle_params Inr r by blast
    show ?thesis
    proof (cases ev)
      case Quiet
      have "last_alert_ts w' = last_alert_ts w"
        using run_cycle_quiet Inr r Quiet by blast
      with Cons.IH [of w' t] cd Inr r Quiet show ?thesis by simp
    next
      case (Fired p)
      have g: "real_of_int (cooldown w) < time_at_check c - last_alert_ts w"
        and l: "last_alert_ts w' = time_at_record c"
        using run_cycle_fired Inr r Fired by blast+
      with Cons.IH [of w' "time_at_check c"] cd Inr r Fired show ?thesis by simp
    qed
  qed
qed

text \<open>
  C1. A pass of the watchdog loop hands an alert to the alert sink only if the counter of
  consecutive readings at or above the threshold, as just incremented, is at least 2 and
  the clock is more than the cooldown past the stored time of the last alert. Hence along
  any run, from any state, the alerts are spaced: each is checked more than the cooldown
  after the time stored for the one before (for the first: after the time stored in the
  starting state). The watchdog of the bot has the cooldown 300.
\<close>

theorem watchdog_alert_gate:
  "(run_cycle w c = Inr (w', Fired p) \<longrightarrow>
       over_counter w' = over_counter w + 1 \<and> 2 \<le> over_counter w' \<and>
       real_of_int (cooldown w) < time_at_check c - last_alert_ts w)
   \<and> spaced (real_of_int (cooldown w)) ((t, last_alert_ts w) # fire_times cs (run w cs))
   \<and> cooldown (Bot_watchdog wh) = 300"
  using run_cycle_fired [of w c w' p] spaced_run [of w t cs]
  by (auto simp: Bot_watchdog_def CPUWatchdog_def)

theorem watchdog_alert_gate_witness:
  "run_cycle ((Bot_watchdog ''hook'')\<lparr>over_counter := 1\<rparr>)
       \<lparr>total = 95, time_at_check = 1000, top3 = Inr [], time_at_record = 1001\<rparr>
     = Inr ((Bot_watchdog ''hook'')\<lparr>over_counter := 2, last_alert_ts := 1001\<rparr>,
            Fired (Some (95, [])))
   \<and> (2::int) \<le> over_counter ((Bot_watchdog ''hook'')\<lparr>over_counter := 2, last_alert_ts := 1001\<rparr>)
   \<and> real_of_int (cooldown ((Bot_watchdog ''hook'')\<lparr>over_counter := 1\<rparr>))
        < 1000 - last_alert_ts ((Bot_watchdog ''hook'')\<lparr>over_counter := 1\<rparr>)"
  using watchdog_alert_gate
    [of "(Bot_watchdog ''hook'')\<lparr>over_counter := 1\<rparr>"
        "\<lparr>total = 95, time_at_check = 1000, top3 = Inr [], time_at_record = 1001\<rparr>"
        "(Bot_watchdog ''hook'')\<lparr>over_counter := 2, last_alert_ts := 1001\<rparr>"
        "Some (95, [])" 0 "[]" "''hook''"]
  by (simp add: run_cycle_def Bot_watchdog_def CPUWatchdog_def send_webhook_alert_def)

text \<open>
  C2. In a pass that completes, a reading at or above the threshold increments the counter;
  a reading below the threshold sets the counter to 0 whatever it was; a pass that fires an
  alert leaves the counter incremented, not reset. For the readings 95, 95, 50, 95, 95 and
  the threshold 90 the counter is 1, 2, 0, 1, 2 after the successive passes, whatever the
  clock, the cooldown and the rows sampled.
\<close>

theorem watchdog_counter:
  "(threshold w \<le> total c \<longrightarrow> run_cycle w c = Inr (w', ev) \<longrightarrow>
       over_counter w' = over_counter w + 1)
   \<and> (total c < threshold w \<longrightarrow> run_cycle w c = Inr (w\<lparr>over_counter := 0\<rparr>, Quiet))
   \<and> (run_cycle w c = Inr (w', Fired p) \<longrightarrow> over_counter w' = over_counter w + 1)
   \<and> counters (run (CPUWatchdog wh 90 cd)
        [\<lparr>total = 95, time_at_check = t1, top3 = Inr r1, time_at_record = u1\<rparr>,
         \<lparr>total = 95, time_at_check = t2, top3 = Inr r2, time_at_record = u2\<rparr>,
         \<lparr>total = 50, time_at_check = t3, top3 = Inr r3, time_at_record = u3\<rparr>,
         \<lparr>total = 95, time_at_check = t4, top3 = Inr r4, time_at_record = u4\<rparr>,
         \<lparr>total = 95, time_at_check = t5, top3 = Inr r5, time_at_record = u5\<rparr>])
       = [1, 2, 0, 1, 2]"
proof -
  have "counters (run (CPUWatchdog wh 90 cd)
        [\<lparr>total = 95, time_at_check = t1, top3 = Inr r1, time_at_record = u1\<rparr>,
         \<lparr>total = 95, time_at_check = t2, top3 = Inr r2, time_at_record = u2\<rparr>,
         \<lparr>total = 50, time_at_check = t3, top3 = Inr r3, time_at_record = u3\<rparr>,
         \<lparr>total = 95, time_at_check = t4, top3 = Inr r4, time_at_record = u4\<rparr>,
         \<lparr>total = 95, time_at_check = t5, top3 = Inr r5, time_at_record = u5\<rparr>])
       = [1, 2, 0, 1, 2]"
    by (simp add: CPUWatchdog_def run_cycle_def Let_def)
  then show ?thesis
    using run_cycle_over [of w c w' ev] run_cycle_below [of c w] run_cycle_fired [of w c w' p]
    by blast
qed

theorem watchdog_counter_witness:
  "(threshold ((CPUWatchdog ''hook'' 90 300)\<lparr>over_counter := 5\<rparr>) \<le> (95::real)
    \<and> run_cycle ((CPUWatchdog ''hook'' 90 300)\<lparr>over_counter := 5\<rparr>)
         \<lparr>total = 95, time_at_check = 1000, top3 = Inr [], time_at_record = 1001\<rparr>
       = Inr ((CPUWatchdog ''hook'' 90 300)\<lparr>over_counter := 6, last_alert_ts := 1001\<rparr>,
              Fired (Some (95, [])))
    \<and> over_counter ((CPUWatchdog ''hook'' 90 300)\<lparr>over_counter := 6, last_alert_ts := 1001\<rparr>)
       = over_counter ((CPUWatchdog ''hook'' 90 300)\<lparr>over_counter := 5\<rparr>) + 1)
   \<and> ((50::real) < threshold ((CPUWatchdog ''hook'' 90 300)\<lparr>over_counter := 5\<rparr>)
    \<and> run_cycle ((CPUWatchdog ''hook'' 90 300)\<lparr>over_counter := 5\<rparr>)
         \<lparr>total = 50, time_at_check = 1000, top3 = Inr [], time_at_record = 1001\<rparr>
       = Inr ((CPUWatchdog ''hook'' 90 300)\<lparr>over_counter := 0\<rparr>, Quiet))"
  using watchdog_counter
    [where w = "(CPUWatchdog ''hook'' 90 300)\<lparr>over_counter := 5\<rparr>"
       and c = "\<lparr>total = 95, time_at_check = 1000, top3 = Inr [], time_at_record = 1001\<rparr>"
       and w' = "(CPUWatchdog ''hook'' 90 300)\<lparr>over_counter := 6, last_alert_ts := 1001\<rparr>"
       and ev = "Fired (Some (95, []))" and p = "Some (95, [])"]
    watchdog_counter
    [where w = "(CPUWatchdog ''hook'' 90 300)\<lparr>over_counter := 5\<rparr>"
       and c = "\<lparr>total = 50, time_at_check = 1000, top3 = Inr [], time_at_record = 1001\<rparr>"]
  by (simp add: run_cycle_def CPUWatchdog_def send_webhook_alert_def)

text \<open>
  A run of six passes over the readings 92, 93, 91, 89, 96, 97 on the wall clock, one pass
  every five seconds or so (one second of reading, four of sleep, the sampling when an
  alert fires).
\<close>

lemma six_readings_on_wall_clock:
  "map fired (run (CPUWatchdog ''hook'' 90 60)
        [\<lparr>total = 92, time_at_check = 1700000001, top3 = Inr [], time_at_record = 1700000002\<rparr>,
         \<lparr>total = 93, time_at_check = 1700000006, top3 = Inr [], time_at_record = 1700000007\<rparr>,
         \<lparr>total = 91, time_at_check = 1700000012, top3 = Inr [], time_at_record = 1700000013\<rparr>,
         \<lparr>total = 89, time_at_check = 1700000017, top3 = Inr [], time_at_record = 1700000018\<rparr>,
         \<lparr>total = 96, time_at_check = 1700000022, top3 = Inr [], time_at_record = 1700000023\<rparr>,
         \<lparr>total = 97, time_at_check = 1700000027, top3 = Inr [], time_at_record = 1700000028\<rparr>])
     = [False, True, False, False, False, False]"
  by (simp add: CPUWatchdog_def run_cycle_def Let_def)

text \<open>
  C3, as stated, fails: on the wall clock the alert of that run is triggered by the second
  reading (93), at which the counter reaches 2, and not by the third (91).
\<close>

theorem end_to_end_third_reading_counterexample:
  "map fired (run (CPUWatchdog ''hook'' 90 60)
        [\<lparr>total = 92, time_at_check = 1700000001, top3 = Inr [], time_at_record = 1700000002\<rparr>,
         \<lparr>total = 93, time_at_check = 1700000006, top3 = Inr [], time_at_record = 1700000007\<rparr>,
         \<lparr>total = 91, time_at_check = 1700000012, top3 = Inr [], time_at_record = 1700000013\<rparr>,
         \<lparr>total = 89, time_at_check = 1700000017, top3 = Inr [], time_at_record = 1700000018\<rparr>,
         \<lparr>total = 96, time_at_check = 1700000022, top3 = Inr [], time_at_record = 1700000023\<rparr>,
         \<lparr>total = 97, time_at_check = 1700000027, top3 = Inr [], time_at_record = 1700000028\<rparr>])
     \<noteq> [False, False, True, False, False, False]"
  by (simp only: six_readings_on_wall_clock) simp

text \<open>
  C3, amended. With threshold 90 and cooldown 60, for the readings 92, 93, 91, 89, 96, 97:
  if the clock at the second reading is more than 60 (the stored time of the last alert
  starts at 0), the sampler returns there, and the third and the sixth readings are checked
  at most 60 after the time stored for that alert, then exactly one alert fires, and it is
  triggered by the second reading.
\<close>

theorem end_to_end_one_alert:
  assumes "60 < t2" and "t3 - u2 \<le> 60" and "t6 - u2 \<le> 60"
  shows "map fired (run (CPUWatchdog wh 90 60)
        [\<lparr>total = 92, time_at_check = t1, top3 = s1, time_at_record = u1\<rparr>,
         \<lparr>total = 93, time_at_check = t2, top3 = Inr rows, time_at_record = u2\<rparr>,
         \<lparr>total = 91, time_at_check = t3, top3 = s3, time_at_record = u3\<rparr>,
         \<lparr>total = 89, time_at_check = t4, top3 = s4, time_at_record = u4\<rparr>,
         \<lparr>total = 96, time_at_check = t5, top3 = s5, time_at_record = u5\<rparr>,
         \<lparr>total = 97, time_at_check = t6, top3 = s6, time_at_record = u6\<rparr>])
     = [False, True, False, False, False, False]"
  using assms by (simp add: CPUWatchdog_def run_cycle_def Let_def)

theorem end_to_end_one_alert_witness:
  "(60::real) < 5006 \<and> (5011::real) - 5007 \<le> 60 \<and> (5026::real) - 5007 \<le> 60
   \<and> map fired (run (CPUWatchdog ''w'' 90 60)
        [\<lparr>total = 92, time_at_check = 5001, top3 = Inr [], time_at_record = 5001\<rparr>,
         \<lparr>total = 93, time_at_check = 5006, top3 = Inr [], time_at_record = 5007\<rparr>,
         \<lparr>total = 91, time_at_check = 5011, top3 = Inr [], time_at_record = 5011\<rparr>,
         \<lparr>total = 89, time_at_check = 5016, top3 = Inr [], time_at_record = 5016\<rparr>,
         \<lparr>total = 96, time_at_check = 5021, top3 = Inr [], time_at_record = 5021\<rparr>,
         \<lparr>total = 97, time_at_check = 5026, top3 = Inr [], time_at_record = 5026\<rparr>])
     = [False, True, False, False, False, False]"
proof -
  have h: "(60::real) < 5006" "(5011::real) - 5007 \<le> 60" "(5026::real) - 5007 \<le> 60"
    by simp_all
  show ?thesis
    using h end_to_end_one_alert
      [OF h, where wh = "''w''" and rows = "[]"
         and ?t1.0 = 5001 and ?s1.0 = "Inr []" and ?u1.0 = 5001
         and ?s3.0 = "Inr []" and ?u3.0 = 5011
         and ?t4.0 = 5016 and ?s4.0 = "Inr []" and ?u4.0 = 5016
         and ?t5.0 = 5021 and ?s5.0 = "Inr []" and ?u5.0 = 5021
         and ?s6.0 = "Inr []" and ?u6.0 = 5026]
    by simp
qed

lemma first_pair_fires:
  assumes "no_breach_pair th (prev # map total (pre @ [c1]))"
    and "over_counter w = (if th \<le> prev then 1 else 0)"
    and "threshold w = th" and "cooldown w = cd" and "last_alert_ts w = 0"
    and "th \<le> total c1" and "th \<le> total c2"
    and "real_of_int cd < time_at_check c2" and "top3 c2 = Inr rows"
  shows "map fired (run w (pre @ [c1, c2])) = replicate (length pre + 1) False @ [True]"
  using assms
proof (induction pre arbitrary: w prev)
  case Nil
  then show ?case
    by (auto simp: run_cycle_def Let_def)
next
  case (Cons c pre)
  let ?w' = "w\<lparr>over_counter := (if th \<le> total c then 1 else 0)\<rparr>"
  have step: "run_cycle w c = Inr (?w', Quiet)"
    using Cons.prems by (auto simp: run_cycle_def Let_def)
  have "map fired (run ?w' (pre @ [c1, c2])) = replicate (length pre + 1) False @ [True]"
    using Cons.prems by (intro Cons.IH [of "total c" ?w']) auto
  with step show ?case by simp
qed

lemma no_breach_pair_below: "a < th \<Longrightarrow> no_breach_pair th (a # xs) = no_breach_pair th xs"
  by (cases xs) auto

text \<open>
  C10. A watchdog starts with the stored time of the last alert at 0. Let the readings
  before \<open>c1\<close>, with \<open>c1\<close>, hold no two consecutive readings at or above the threshold, and
  let \<open>c1\<close> and \<open>c2\<close> both be at or above it: the first such pair since the start. If the
  clock at \<open>c2\<close> is greater than the cooldown and the sampler returns, then no pass before
  \<open>c2\<close> fires and the pass of \<open>c2\<close> does: the cooldown does not hold back the first alert.
\<close>

theorem first_alert_not_gated:
  assumes "no_breach_pair th (map total (pre @ [c1]))"
    and "th \<le> total c1" and "th \<le> total c2"
    and "real_of_int cd < time_at_check c2" and "top3 c2 = Inr rows"
  shows "map fired (run (CPUWatchdog wh th cd) (pre @ [c1, c2]))
     = replicate (length pre + 1) False @ [True]"
proof -
  have "no_breach_pair th ((th - 1) # map total (pre @ [c1]))"
    using assms(1) by (simp only: no_breach_pair_below [of "th - 1" th, simplified])
  then show ?thesis
    using assms(2-5)
    by (intro first_pair_fires [where prev = "th - 1" and cd = cd and rows = rows])
       (simp_all add: CPUWatchdog_def)
qed

theorem first_alert_not_gated_witness:
  "no_breach_pair 90
      (map total ([\<lparr>total = 95, time_at_check = 301, top3 = Inr [], time_at_record = 301\<rparr>,
                   \<lparr>total = 50, time_at_check = 306, top3 = Inr [], time_at_record = 306\<rparr>]
                  @ [\<lparr>total = 91, time_at_check = 311, top3 = Inr [], time_at_record = 311\<rparr>]))
   \<and> (90::real) \<le> 91 \<and> (90::real) \<le> 99 \<and> real_of_int 300 < 316
   \<and> map fired (run (CPUWatchdog ''hook'' 90 300)
        [\<lparr>total = 95, time_at_check = 301, top3 = Inr [], time_at_record = 301\<rparr>,
         \<lparr>total = 50, time_at_check = 306, top3 = Inr [], time_at_record = 306\<rparr>,
         \<lparr>total = 91, time_at_check = 311, top3 = Inr [], time_at_record = 311\<rparr>,
         \<lparr>total = 99, time_at_check = 316, top3 = Inr [], time_at_record = 317\<rparr>])
     = [False, False, False, True]"
  using first_alert_not_gated
    [where th = 90 and cd = 300 and wh = "''hook''" and rows = "[]"
       and pre = "[\<lparr>total = 95, time_at_check = 301, top3 = Inr [], time_at_record = 301\<rparr>,
                   \<lparr>total = 50, time_at_check = 306, top3 = Inr [], time_at_record = 306\<rparr>]"
       and ?c1.0 = "\<lparr>total = 91, time_at_check = 311, top3 = Inr [], time_at_record = 311\<rparr>"
       and ?c2.0 = "\<lparr>total = 99, time_at_check = 316, top3 = Inr [], time_at_record = 317\<rparr>"]
  by (simp add: numeral_3_eq_3)

section \<open>Properties of the rolling history\<close>

text \<open>
  While the deque is within its bound, an append keeps the last \<open>maxlen\<close> items of the
  extended sequence.
\<close>

lemma deque_append_drop:
  assumes "length d \<le> m" and "0 < m"
  shows "deque_append m d v = drop (length (d @ [v]) - m) (d @ [v])"
proof (cases "m < length (d @ [v])")
  case True
  with assms have "length (d @ [v]) - m = Suc 0" by simp
  then have "drop (length (d @ [v]) - m) (d @ [v]) = tl (d @ [v])"
    by (simp only: drop_Suc drop_0)
  with True assms show ?thesis by (simp add: deque_append_def)
next
  case False
  with assms show ?thesis by (simp add: deque_append_def)
qed

lemma drop_append_within: "k \<le> length xs \<Longrightarrow> drop k xs @ ys = drop k (xs @ ys)"
  by simp

lemma window_arith:
  "n \<le> m + 1 \<Longrightarrow> n \<le> l \<Longrightarrow> l - (n - m) - m + (n - m) = l - (m::nat)"
  by arith

lemma collector_drop:
  "length h \<le> CPU_HISTORY_maxlen \<Longrightarrow>
     cpu_history_collector h vs = drop (length (h @ vs) - CPU_HISTORY_maxlen) (h @ vs)"
proof (induction vs arbitrary: h)
  case Nil
  then show ?case by simp
next
  case (Cons v vs)
  let ?k = "length (h @ [v]) - CPU_HISTORY_maxlen"
  let ?h' = "drop ?k (h @ [v])"
  have pos: "0 < CPU_HISTORY_maxlen" by (simp add: CPU_HISTORY_maxlen_def)
  have app: "deque_append CPU_HISTORY_maxlen h v = ?h'"
    using Cons.prems pos by (rule deque_append_drop)
  have len: "length ?h' \<le> CPU_HISTORY_maxlen"
    using Cons.prems by simp
  have k: "?k \<le> length (h @ [v])" by simp
  have "cpu_history_collector h (v # vs) = cpu_history_collector ?h' vs"
    by (simp add: app)
  also have "\<dots> = drop (length (?h' @ vs) - CPU_HISTORY_maxlen) (?h' @ vs)"
    using len by (rule Cons.IH)
  also have "?h' @ vs = drop ?k ((h @ [v]) @ vs)"
    using k by (rule drop_append_within)
  also have "drop (length (drop ?k ((h @ [v]) @ vs)) - CPU_HISTORY_maxlen) (drop ?k ((h @ [v]) @ vs))
     = drop (length ((h @ [v]) @ vs) - ?k - CPU_HISTORY_maxlen + ?k) ((h @ [v]) @ vs)"
    by (simp only: drop_drop length_drop)
  also have "length ((h @ [v]) @ vs) - ?k - CPU_HISTORY_maxlen + ?k
     = length ((h @ [v]) @ vs) - CPU_HISTORY_maxlen"
    using Cons.prems by (intro window_arith) simp_all
  finally show ?case by simp
qed

lemma collector_length:
  "length h \<le> CPU_HISTORY_maxlen \<Longrightarrow> length (cpu_history_collector h vs) \<le> CPU_HISTORY_maxlen"
  by (simp add: collector_drop)

text \<open>
  C6. Appends by the history recorder never take the window beyond 150 entries. Starting
  from the empty \<^verbatim>\<open>CPU_HISTORY\<close>, the window holds the last 150 of the values appended, in
  the order appended; after 151 appends it holds 150 entries, namely all but the first one
  appended, so that the entry appended first is gone (when the values are distinct, its
  value occurs nowhere in the window).
\<close>

theorem history_window_bounded:
  "(length h \<le> 150 \<longrightarrow> length (cpu_history_collector h vs) \<le> 150)
   \<and> cpu_history_collector CPU_HISTORY vs = drop (length vs - 150) vs
   \<and> (length vs = 151 \<longrightarrow>
        cpu_history_collector CPU_HISTORY vs = tl vs
        \<and> length (cpu_history_collector CPU_HISTORY vs) = 150
        \<and> (distinct vs \<longrightarrow> hd vs \<notin> set (cpu_history_collector CPU_HISTORY vs)))"
proof -
  have a: "length h \<le> 150 \<longrightarrow> length (cpu_history_collector h vs) \<le> 150"
    using collector_length [of h vs] by (simp add: CPU_HISTORY_maxlen_def)
  have b: "cpu_history_collector CPU_HISTORY vs = drop (length vs - 150) vs"
    using collector_drop [of CPU_HISTORY vs] by (simp add: CPU_HISTORY_maxlen_def CPU_HISTORY_def)
  have c: "cpu_history_collector CPU_HISTORY vs = tl vs" if "length vs = 151"
    using b that by (simp add: drop_Suc)
  have d: "hd vs \<notin> set (tl vs)" if "length vs = 151" "distinct vs"
    using that by (cases vs) auto
  from a b c d show ?thesis by simp
qed

theorem history_window_bounded_witness:
  "length ([] :: real list) \<le> 150
   \<and> length (cpu_history_collector [] (map real [0..<151])) \<le> 150
   \<and> length (map real [0..<151]) = 151 \<and> distinct (map real [0..<151])
   \<and> cpu_history_collector CPU_HISTORY (map real [0..<151]) = tl (map real [0..<151])
   \<and> length (cpu_history_collector CPU_HISTORY (map real [0..<151])) = 150
   \<and> hd (map real [0..<151]) \<notin> set (cpu_history_collector CPU_HISTORY (map real [0..<151]))"
proof -
  have e: "length ([] :: real list) \<le> 150" by simp
  have l: "length (map real [0..<151]) = 151" by simp
  have d: "distinct (map real [0..<151])" by (simp add: distinct_map)
  show ?thesis
    using e l d history_window_bounded [of "[]" "map real [0..<151]"] by blast
qed

section \<open>Properties of the process sampler\<close>

lemma prime_all_filter:
  "prime_all ps = Inr qs \<Longrightarrow> qs = filter (\<lambda>p. returned (prime p)) ps"
proof (induction ps arbitrary: qs)
  case Nil
  then show ?case by simp
next
  case (Cons p ps)
  show ?case
  proof (cases "prime p")
    case (Inr v)
    with Cons show ?thesis by (auto split: sum.splits)
  next
    case (Inl e)
    with Cons show ?thesis by (auto split: sum.splits if_splits)
  qed
qed

lemma read_all_length:
  "read_all c ps = Inr rs \<Longrightarrow> length rs = length (filter (\<lambda>p. returned (reread p)) ps)"
proof (induction ps arbitrary: rs)
  case Nil
  then show ?case by simp
next
  case (Cons p ps)
  show ?case
  proof (cases "reread p")
    case (Inr v)
    with Cons show ?thesis by (auto split: sum.splits)
  next
    case (Inl e)
    with Cons show ?thesis by (auto split: sum.splits if_splits)
  qed
qed

lemma read_all_rows:
  "read_all c ps = Inr rs \<Longrightarrow> r \<in> set rs \<Longrightarrow>
     \<exists>p\<in>set ps. \<exists>raw. reread p = Inr raw \<and> row_pid r = proc_pid p \<and>
        row_name r = display_name p \<and> row_cpu r = normalized raw c"
proof (induction ps arbitrary: rs)
  case Nil
  then show ?case by simp
next
  case (Cons p ps)
  show ?case
  proof (cases "reread p")
    case (Inr v)
    with Cons show ?thesis by (fastforce split: sum.splits)
  next
    case (Inl e)
    with Cons show ?thesis by (fastforce split: sum.splits if_splits)
  qed
qed

lemma non_increasing_sort: "non_increasing (sort_cpu_desc rs)"
proof -
  have "sorted (map (\<lambda>r. - row_cpu r) (sort_key (\<lambda>r. - row_cpu r) rs))"
    by (rule sorted_sort_key)
  then show ?thesis
    by (simp add: non_increasing_def sort_cpu_desc_def sorted_map)
qed

lemma non_increasing_slice: "non_increasing rs \<Longrightarrow> non_increasing (slice_to n rs)"
  by (simp add: non_increasing_def slice_to_def sorted_wrt_take)

lemma length_slice_nonneg: "0 \<le> n \<Longrightarrow> int (length (slice_to n xs)) = min n (int (length xs))"
  by (simp add: slice_to_def)

lemma set_slice: "set (slice_to n xs) \<subseteq> set xs"
  by (simp add: slice_to_def set_take_subset)

text \<open>What the sampler returns, in terms of the two loops.\<close>

lemma snapshot_decomposed:
  assumes "snapshot_top_processes n reported procs = Inr rows"
  obtains rs where
    "read_all (cpu_count_or_1 reported) (filter (\<lambda>p. returned (prime p)) procs) = Inr rs"
    and "rows = slice_to n (sort_cpu_desc rs)"
proof -
  from assms obtain primed rs where p: "prime_all procs = Inr primed"
    and r: "read_all (cpu_count_or_1 reported) primed = Inr rs"
    and s: "rows = slice_to n (sort_cpu_desc rs)"
    by (auto simp: snapshot_top_processes_def Let_def split: sum.splits)
  from p have "primed = filter (\<lambda>p. returned (prime p)) procs"
    by (rule prime_all_filter)
  with r s that show thesis by blast
qed

lemma prime_all_returns:
  "(\<And>p e. p \<in> set ps \<Longrightarrow> prime p = Inl e \<Longrightarrow> skipped e) \<Longrightarrow> \<exists>qs. prime_all ps = Inr qs"
proof (induction ps)
  case Nil
  show ?case by simp
next
  case (Cons p ps)
  then obtain qs where "prime_all ps = Inr qs" by auto
  with Cons.prems [of p] show ?case
    by (cases "prime p") auto
qed

lemma read_all_returns:
  "(\<And>p e. p \<in> set ps \<Longrightarrow> reread p = Inl e \<Longrightarrow> skipped e) \<Longrightarrow> \<exists>rs. read_all c ps = Inr rs"
proof (induction ps)
  case Nil
  show ?case by simp
next
  case (Cons p ps)
  then obtain rs where "read_all c ps = Inr rs" by auto
  with Cons.prems [of p] show ?case
    by (cases "reread p") auto
qed

lemma snapshot_returns:
  assumes "\<And>p e. p \<in> set procs \<Longrightarrow> prime p = Inl e \<Longrightarrow> skipped e"
    and "\<And>p e. p \<in> set procs \<Longrightarrow> reread p = Inl e \<Longrightarrow> skipped e"
  shows "\<exists>rows. snapshot_top_processes n reported procs = Inr rows"
proof -
  obtain qs where q: "prime_all procs = Inr qs"
    using prime_all_returns [of procs] assms(1) by blast
  then have "qs = filter (\<lambda>p. returned (prime p)) procs"
    by (rule prime_all_filter)
  then have "\<And>p e. p \<in> set qs \<Longrightarrow> reread p = Inl e \<Longrightarrow> skipped e"
    using assms(2) by auto
  then obtain rs where "read_all (cpu_count_or_1 reported) qs = Inr rs"
    using read_all_returns [of qs] by blast
  with q show ?thesis
    by (simp add: snapshot_top_processes_def)
qed

lemma example_snapshot:
  "snapshot_top_processes 3 (Some 4) example_procs
     = Inr [\<lparr>row_pid = 16, row_name = ''busy'', row_cpu = 75\<rparr>,
            \<lparr>row_pid = 12, row_name = ''pid-12'', row_cpu = 30\<rparr>,
            \<lparr>row_pid = 15, row_name = ''pid-15'', row_cpu = 30\<rparr>]"
  by (simp add: snapshot_top_processes_def example_procs_def cpu_count_or_1_def slice_to_def
      sort_cpu_desc_def normalized_def display_name_def str_int_def str_nat.simps digit_char_def)

text \<open>
  C4, as stated, fails for a negative \<open>n\<close>: \<^verbatim>\<open>rows[:n]\<close> then drops the last rows instead of
  returning none, and the length exceeds \<open>min n\<close> of the number of surviving processes. With
  \<open>n = -1\<close> and four survivors the sampler returns three rows.
\<close>

theorem sampler_negative_n_counterexample:
  "snapshot_top_processes (- 1) (Some 4) example_procs
     = Inr [\<lparr>row_pid = 16, row_name = ''busy'', row_cpu = 75\<rparr>,
            \<lparr>row_pid = 12, row_name = ''pid-12'', row_cpu = 30\<rparr>,
            \<lparr>row_pid = 15, row_name = ''pid-15'', row_cpu = 30\<rparr>]
   \<and> \<not> int (length [\<lparr>row_pid = 16, row_name = ''busy'', row_cpu = 75\<rparr>,
            \<lparr>row_pid = 12, row_name = ''pid-12'', row_cpu = 30\<rparr>,
            \<lparr>row_pid = 15, row_name = ''pid-15'', row_cpu = 30\<rparr>])
         \<le> min (- 1) (int (length (filter survived example_procs)))"
  by (simp add: snapshot_top_processes_def example_procs_def cpu_count_or_1_def slice_to_def
      sort_cpu_desc_def normalized_def display_name_def str_int_def str_nat.simps digit_char_def
      survived_def)

text \<open>
  C4, amended. Whatever the processes and \<open>n\<close>, the list that the sampler returns is sorted
  non-increasing by normalized CPU value; and for \<open>n \<ge> 0\<close> its length is at most the
  minimum of \<open>n\<close> and the number of processes that survived both loops.
\<close>

theorem sampler_sorted_and_bounded:
  assumes "snapshot_top_processes n reported procs = Inr rows"
  shows "non_increasing rows
     \<and> (0 \<le> n \<longrightarrow> int (length rows) \<le> min n (int (length (filter survived procs))))"
proof -
  from assms obtain rs where
    r: "read_all (cpu_count_or_1 reported) (filter (\<lambda>p. returned (prime p)) procs) = Inr rs"
    and s: "rows = slice_to n (sort_cpu_desc rs)"
    by (rule snapshot_decomposed)
  have "length rs = length (filter survived procs)"
    using read_all_length [OF r] by (simp add: survived_def [abs_def] conj_commute)
  then have "int (length rows) = min n (int (length (filter survived procs)))" if "0 \<le> n"
    using that s by (simp add: length_slice_nonneg sort_cpu_desc_def)
  moreover have "non_increasing rows"
    using s non_increasing_sort non_increasing_slice by simp
  ultimately show ?thesis by simp
qed

theorem sampler_sorted_and_bounded_witness:
  "snapshot_top_processes 3 (Some 4) example_procs
     = Inr [\<lparr>row_pid = 16, row_name = ''busy'', row_cpu = 75\<rparr>,
            \<lparr>row_pid = 12, row_name = ''pid-12'', row_cpu = 30\<rparr>,
            \<lparr>row_pid = 15, row_name = ''pid-15'', row_cpu = 30\<rparr>]
   \<and> non_increasing [\<lparr>row_pid = 16, row_name = ''busy'', row_cpu = 75\<rparr>,
            \<lparr>row_pid = 12, row_name = ''pid-12'', row_cpu = 30\<rparr>,
            \<lparr>row_pid = 15, row_name = ''pid-15'', row_cpu = 30\<rparr>]
   \<and> (0::int) \<le> 3 \<and> length (filter survived example_procs) = 4
   \<and> int (length [\<lparr>row_pid = 16, row_name = ''busy'', row_cpu = 75\<rparr>,
            \<lparr>row_pid = 12, row_name = ''pid-12'', row_cpu = 30\<rparr>,
            \<lparr>row_pid = 15, row_name = ''pid-15'', row_cpu = 30\<rparr>])
       \<le> min 3 (int (length (filter survived example_procs)))"
proof -
  have "length (filter survived example_procs) = 4"
    by (simp add: example_procs_def survived_def)
  then show ?thesis
    using sampler_sorted_and_bounded [OF example_snapshot] example_snapshot by simp
qed

lemma normalized_nonneg: "0 \<le> normalized r k"
  by (simp add: normalized_def)

lemma cpu_count_or_1_nonzero: "cpu_count_or_1 c \<noteq> 0"
  by (simp add: cpu_count_or_1_def split: option.splits)

text \<open>
  C5. The normalized value of a raw reading \<open>r\<close> is \<open>max 0 (r / d)\<close> for the divisor \<open>d\<close>
  that the sampler derives from the reported core count; it is never negative; the divisor
  is never 0: it is 1 when the count is unavailable or reported as 0 and the reported count
  otherwise. Every row that the sampler returns carries, for some enumerated process, the
  value so normalized of that process's second reading.
\<close>

theorem normalization:
  "normalized r (cpu_count_or_1 c) = max 0 (r / real_of_int (cpu_count_or_1 c))
   \<and> 0 \<le> normalized r (cpu_count_or_1 c)
   \<and> cpu_count_or_1 c \<noteq> 0
   \<and> cpu_count_or_1 None = 1 \<and> cpu_count_or_1 (Some 0) = 1
   \<and> (k \<noteq> 0 \<longrightarrow> cpu_count_or_1 (Some k) = k)
   \<and> (snapshot_top_processes n c procs = Inr rows \<longrightarrow>
        (\<forall>row\<in>set rows. \<exists>p\<in>set procs. \<exists>raw.
            reread p = Inr raw \<and> row_pid row = proc_pid p
            \<and> row_cpu row = max 0 (raw / real_of_int (cpu_count_or_1 c))
            \<and> 0 \<le> row_cpu row))"
proof -
  have "\<exists>p\<in>set procs. \<exists>raw.
            reread p = Inr raw \<and> row_pid row = proc_pid p
            \<and> row_cpu row = max 0 (raw / real_of_int (cpu_count_or_1 c))
            \<and> 0 \<le> row_cpu row"
    if ret: "snapshot_top_processes n c procs = Inr rows" and mem: "row \<in> set rows" for row
  proof -
    from ret obtain rs where
      r: "read_all (cpu_count_or_1 c) (filter (\<lambda>p. returned (prime p)) procs) = Inr rs"
      and s: "rows = slice_to n (sort_cpu_desc rs)"
      by (rule snapshot_decomposed)
    from mem s have "row \<in> set rs"
      using set_slice [of n "sort_cpu_desc rs"] by (auto simp: sort_cpu_desc_def)
    with read_all_rows [OF r] obtain p raw where
      "p \<in> set (filter (\<lambda>p. returned (prime p)) procs)" "reread p = Inr raw"
      "row_pid row = proc_pid p" "row_cpu row = normalized raw (cpu_count_or_1 c)"
      by blast
    then show ?thesis
      by (auto simp: normalized_def)
  qed
  then show ?thesis
    using normalized_nonneg [of r "cpu_count_or_1 c"] cpu_count_or_1_nonzero [of c]
    by (simp add: normalized_def cpu_count_or_1_def)
qed


theorem normalization_witness:
  "(4::int) \<noteq> 0 \<and> cpu_count_or_1 (Some 4) = 4
   \<and> snapshot_top_processes 3 (Some 4) example_procs
     = Inr [\<lparr>row_pid = 16, row_name = ''busy'', row_cpu = 75\<rparr>,
            \<lparr>row_pid = 12, row_name = ''pid-12'', row_cpu = 30\<rparr>,
            \<lparr>row_pid = 15, row_name = ''pid-15'', row_cpu = 30\<rparr>]
   \<and> (\<exists>p raw. p \<in> set example_procs \<and> reread p = Inr raw \<and> proc_pid p = 16
         \<and> 75 = max 0 (raw / real_of_int (cpu_count_or_1 (Some 4))))
   \<and> (\<exists>p raw. p \<in> set example_procs \<and> reread p = Inr raw \<and> proc_pid p = 12
         \<and> 30 = max 0 (raw / real_of_int (cpu_count_or_1 (Some 4))))
   \<and> (\<exists>p raw. p \<in> set example_procs \<and> reread p = Inr raw \<and> proc_pid p = 15
         \<and> 30 = max 0 (raw / real_of_int (cpu_count_or_1 (Some 4))))"
proof -
  have k: "(4::int) \<noteq> 0" by simp
  have "\<forall>row\<in>set [\<lparr>row_pid = 16, row_name = ''busy'', row_cpu = 75\<rparr>,
            \<lparr>row_pid = 12, row_name = ''pid-12'', row_cpu = 30\<rparr>,
            \<lparr>row_pid = 15, row_name = ''pid-15'', row_cpu = 30\<rparr>].
        \<exists>p\<in>set example_procs. \<exists>raw.
            reread p = Inr raw \<and> row_pid row = proc_pid p
            \<and> row_cpu row = max 0 (raw / real_of_int (cpu_count_or_1 (Some 4)))
            \<and> 0 \<le> row_cpu row"
    and "cpu_count_or_1 (Some 4) = 4"
    using k example_snapshot
      normalization [where k = 4 and c = "Some 4" and n = 3 and procs = example_procs
        and rows = "[\<lparr>row_pid = 16, row_name = ''busy'', row_cpu = 75\<rparr>,
            \<lparr>row_pid = 12, row_name = ''pid-12'', row_cpu = 30\<rparr>,
            \<lparr>row_pid = 15, row_name = ''pid-15'', row_cpu = 30\<rparr>]"]
    by blast+
  then show ?thesis
    using k example_snapshot by (simp add: Bex_def)
qed

section \<open>Properties of the termination safeguard\<close>

lemma handler_returns: "\<exists>msg. handler e = Inr (False, msg)"
  by (cases e) simp_all

lemma safe_terminate_pid_returns:
  "\<exists>ok msg. fst (safe_terminate_pid host pid timeout) = Inr (ok, msg)"
proof (cases "terminate_attempt host pid timeout")
  case (Pair r acts)
  show ?thesis
  proof (cases r)
    case (Inl e)
    with Pair handler_returns [of e] show ?thesis
      by (auto simp: safe_terminate_pid_def)
  next
    case (Inr v)
    with Pair show ?thesis
      by (cases v) (simp add: safe_terminate_pid_def)
  qed
qed

lemma safe_terminate_pid_handles:
  "fst (terminate_attempt host pid timeout) = Inl e \<Longrightarrow>
     fst (safe_terminate_pid host pid timeout) = handler e"
  by (cases "terminate_attempt host pid timeout") (simp add: safe_terminate_pid_def)

lemma mentions: "sublist b (a @ b @ c)"
  by (rule sublist_appendI)

lemma mentions_protected:
  "sublist ''protected'' ''Refusing to terminate a protected system process.''"
  using mentions [of "''protected''" "''Refusing to terminate a ''" "'' system process.''"]
  by simp

lemma mentions_gone:
  "sublist ''no longer exists'' ''Process no longer exists.''"
  using mentions [of "''no longer exists''" "''Process ''" "''.''"]
  by simp

lemma mentions_denied:
  "sublist ''Access denied'' ''Access denied. Run the bot with sufficient privileges.''"
  using mentions [of "''Access denied''" "[]" "''. Run the bot with sufficient privileges.''"]
  by simp

text \<open>
  C7. For every host, pid and timeout \<^verbatim>\<open>safe_terminate_pid\<close> returns a pair \<open>(ok, message)\<close>
  and raises nothing. A protected pid gives \<open>False\<close> and a message that mentions
  ``protected'', with no call made on the host; a pid that does not exist gives \<open>False\<close>
  and a message that mentions ``no longer exists''; a pid that the operating system does
  not let the bot inspect gives \<open>False\<close> and the access-denied message; a process with a
  protected name gives \<open>False\<close> and a message that mentions the name. Wherever in the
  attempt \<^verbatim>\<open>NoSuchProcess\<close> or \<^verbatim>\<open>AccessDenied\<close> is raised, the same two messages result,
  and any other exception that leaves the attempt gives \<open>False\<close> and a message that
  contains the \<^verbatim>\<open>repr\<close> of the exception.
\<close>

theorem terminate_never_raises:
  "(\<exists>ok msg. fst (safe_terminate_pid host pid timeout) = Inr (ok, msg))
   \<and> (pid \<in> PROTECTED_PIDS \<longrightarrow>
        safe_terminate_pid host pid timeout
          = (Inr (False, ''Refusing to terminate a protected system process.''), [])
        \<and> sublist ''protected'' ''Refusing to terminate a protected system process.'')
   \<and> (pid \<notin> PROTECTED_PIDS \<longrightarrow> host pid = Inl (NoSuchProcess s) \<longrightarrow>
        safe_terminate_pid host pid timeout
          = (Inr (False, ''Process no longer exists.''), [Resolve pid])
        \<and> sublist ''no longer exists'' ''Process no longer exists.'')
   \<and> (pid \<notin> PROTECTED_PIDS \<longrightarrow> host pid = Inl (AccessDenied s) \<longrightarrow>
        safe_terminate_pid host pid timeout
          = (Inr (False, ''Access denied. Run the bot with sufficient privileges.''), [Resolve pid])
        \<and> sublist ''Access denied'' ''Access denied. Run the bot with sufficient privileges.'')
   \<and> (pid \<notin> PROTECTED_PIDS \<longrightarrow> host pid = Inr p \<longrightarrow> p_name p = Inr name \<longrightarrow>
        name \<in> SYSTEM_NAMES \<longrightarrow>
        safe_terminate_pid host pid timeout
          = (Inr (False, ''Refusing to terminate critical process: '' @ name @ ''.''),
             [Resolve pid, ReadName])
        \<and> sublist name (''Refusing to terminate critical process: '' @ name @ ''.''))
   \<and> (fst (terminate_attempt host pid timeout) = Inl (NoSuchProcess s) \<longrightarrow>
        fst (safe_terminate_pid host pid timeout) = Inr (False, ''Process no longer exists.''))
   \<and> (fst (terminate_attempt host pid timeout) = Inl (AccessDenied s) \<longrightarrow>
        fst (safe_terminate_pid host pid timeout)
          = Inr (False, ''Access denied. Run the bot with sufficient privileges.''))
   \<and> (fst (terminate_attempt host pid timeout) = Inl e \<longrightarrow> \<not> skipped e \<longrightarrow>
        fst (safe_terminate_pid host pid timeout) = Inr (False, ''Unexpected error: '' @ repr e)
        \<and> sublist (repr e) (''Unexpected error: '' @ repr e))"
proof -
  have a: "\<exists>ok msg. fst (safe_terminate_pid host pid timeout) = Inr (ok, msg)"
    by (rule safe_terminate_pid_returns)
  have b: "safe_terminate_pid host pid timeout
          = (Inr (False, ''Refusing to terminate a protected system process.''), [])"
    if "pid \<in> PROTECTED_PIDS"
    using that by (simp add: safe_terminate_pid_def terminate_attempt_def)
  have c: "safe_terminate_pid host pid timeout = (handler e, [Resolve pid])"
    if "pid \<notin> PROTECTED_PIDS" "host pid = Inl e" for e
    using that by (simp add: safe_terminate_pid_def terminate_attempt_def)
  have d: "safe_terminate_pid host pid timeout
          = (Inr (False, ''Refusing to terminate critical process: '' @ name @ ''.''),
             [Resolve pid, ReadName])"
    if "pid \<notin> PROTECTED_PIDS" "host pid = Inr p" "p_name p = Inr name" "name \<in> SYSTEM_NAMES"
    using that by (simp add: safe_terminate_pid_def terminate_attempt_def)
  have e: "sublist name (''Refusing to terminate critical process: '' @ name @ ''.'')"
    by (rule mentions)
  have f: "sublist (repr e) (''Unexpected error: '' @ repr e)"
    using mentions [of "repr e" "''Unexpected error: ''" "[]"] by simp
  have h: "handler e = Inr (False, ''Unexpected error: '' @ repr e)" if "\<not> skipped e"
    using that by (cases e) simp_all
  have g: "fst (safe_terminate_pid host pid timeout) = handler e"
    if "fst (terminate_attempt host pid timeout) = Inl e" for e
    using that by (rule safe_terminate_pid_handles)
  show ?thesis
    using a b c [of "NoSuchProcess s"] c [of "AccessDenied s"] d e f h
      g [of "NoSuchProcess s"] g [of "AccessDenied s"] g [of e]
      mentions_protected mentions_gone mentions_denied
    by simp
qed

theorem terminate_never_raises_witness:
  "(4 \<in> PROTECTED_PIDS
    \<and> safe_terminate_pid example_host 4 3
        = (Inr (False, ''Refusing to terminate a protected system process.''), []))
   \<and> (999 \<notin> PROTECTED_PIDS
    \<and> example_host 999 = Inl (NoSuchProcess ''psutil.NoSuchProcess(pid)'')
    \<and> fst (terminate_attempt example_host 999 3)
        = Inl (NoSuchProcess ''psutil.NoSuchProcess(pid)'')
    \<and> safe_terminate_pid example_host 999 3
        = (Inr (False, ''Process no longer exists.''), [Resolve 999]))
   \<and> (103 \<notin> PROTECTED_PIDS
    \<and> example_host 103 = Inl (AccessDenied ''psutil.AccessDenied(pid=103)'')
    \<and> fst (terminate_attempt example_host 103 3)
        = Inl (AccessDenied ''psutil.AccessDenied(pid=103)'')
    \<and> safe_terminate_pid example_host 103 3
        = (Inr (False, ''Access denied. Run the bot with sufficient privileges.''), [Resolve 103]))
   \<and> (102 \<notin> PROTECTED_PIDS
    \<and> example_host 102
        = Inr \<lparr>p_name = Inr ''Registry'', p_terminate = Inr (), p_wait = Inr (),
               p_kill = Inr ()\<rparr>
    \<and> ''Registry'' \<in> SYSTEM_NAMES
    \<and> safe_terminate_pid example_host 102 3
        = (Inr (False, ''Refusing to terminate critical process: Registry.''),
           [Resolve 102, ReadName]))
   \<and> (fst (terminate_attempt example_host 104 3) = Inl (OtherException ''OSError(5)'')
    \<and> \<not> skipped (OtherException ''OSError(5)'')
    \<and> fst (safe_terminate_pid example_host 104 3)
        = Inr (False, ''Unexpected error: OSError(5)''))"
  using terminate_never_raises [where host = example_host and pid = 4 and timeout = 3]
    terminate_never_raises [where host = example_host and pid = 999 and timeout = 3
          and s = "''psutil.NoSuchProcess(pid)''"]
    terminate_never_raises [where host = example_host and pid = 103 and timeout = 3
          and s = "''psutil.AccessDenied(pid=103)''"]
    terminate_never_raises [where host = example_host and pid = 102 and timeout = 3 and name = "''Registry''"
          and p = "\<lparr>p_name = Inr ''Registry'', p_terminate = Inr (), p_wait = Inr (),
                     p_kill = Inr ()\<rparr>"]
    terminate_never_raises [where host = example_host and pid = 104 and timeout = 3
          and e = "OtherException ''OSError(5)''"]
  by (simp add: example_host_def PROTECTED_PIDS_def SYSTEM_NAMES_def terminate_attempt_def)

text \<open>
  C8. For a process that exists, is protected neither by pid nor by name, accepts
  \<^verbatim>\<open>terminate()\<close> and has not exited when \<^verbatim>\<open>wait(timeout)\<close> gives up, the calls made are,
  in this order: the lookup, the name, \<^verbatim>\<open>terminate()\<close>, \<^verbatim>\<open>wait(timeout)\<close>, \<^verbatim>\<open>kill()\<close>. The
  result is \<open>ok = True\<close> when \<^verbatim>\<open>kill()\<close> returns, and only then. (The command calls with
  the default timeout 3.)
\<close>

theorem terminate_escalates:
  assumes "pid \<notin> PROTECTED_PIDS" and "host pid = Inr p" and "p_name p = Inr name"
    and "name \<notin> SYSTEM_NAMES" and "p_terminate p = Inr ()"
    and "p_wait p = Inl (TimeoutExpired s)"
  shows "snd (safe_terminate_pid host pid timeout)
           = [Resolve pid, ReadName, Terminate, Wait timeout, Kill]
     \<and> (p_kill p = Inr () \<longrightarrow>
          fst (safe_terminate_pid host pid timeout) = Inr (True, terminated_msg name pid))
     \<and> (fst (safe_terminate_pid host pid timeout) = Inr (True, msg) \<longrightarrow> p_kill p = Inr ())"
proof (cases "p_kill p")
  case (Inl e)
  obtain m where "handler e = Inr (False, m)"
    using handler_returns [of e] by blast
  with Inl assms show ?thesis
    by (simp add: safe_terminate_pid_def terminate_attempt_def)
next
  case (Inr u)
  with assms show ?thesis
    by (simp add: safe_terminate_pid_def terminate_attempt_def)
qed


theorem terminate_escalates_witness:
  "100 \<notin> PROTECTED_PIDS
   \<and> example_host 100
       = Inr \<lparr>p_name = Inr ''worker'', p_terminate = Inr (),
              p_wait = Inl (TimeoutExpired ''psutil.TimeoutExpired(seconds=3.0, pid=100)''),
              p_kill = Inr ()\<rparr>
   \<and> ''worker'' \<notin> SYSTEM_NAMES
   \<and> safe_terminate_pid example_host 100 3
       = (Inr (True, ''Terminated **worker** (PID 100).''),
          [Resolve 100, ReadName, Terminate, Wait 3, Kill])"
proof -
  have h: "100 \<notin> PROTECTED_PIDS"
    "example_host 100
       = Inr \<lparr>p_name = Inr ''worker'', p_terminate = Inr (),
              p_wait = Inl (TimeoutExpired ''psutil.TimeoutExpired(seconds=3.0, pid=100)''),
              p_kill = Inr ()\<rparr>"
    "''worker'' \<notin> SYSTEM_NAMES"
    by (simp_all add: PROTECTED_PIDS_def example_host_def SYSTEM_NAMES_def)
  have m: "terminated_msg ''worker'' 100 = ''Terminated **worker** (PID 100).''"
    by (simp add: terminated_msg_def str_int_def str_nat.simps digit_char_def)
  show ?thesis
    using h m terminate_escalates [where host = example_host and pid = 100 and timeout = 3 and name = "''worker''"
        and s = "''psutil.TimeoutExpired(seconds=3.0, pid=100)''", OF h(1) h(2) _ h(3)]
    by (simp add: prod_eq_iff)
qed

section \<open>Properties of the \<^verbatim>\<open>/terminate\<close> command\<close>

text \<open>What \<^verbatim>\<open>/topcpu\<close> stores for a user is a list of at most 10 rows.\<close>

lemma topcpu_stores_at_most_10:
  assumes "topcpu last_topcpu_by_user now user reported procs = Inr stored"
  shows "\<exists>rows. stored user = Some \<lparr>cache_at = now, cache_rows = rows\<rparr> \<and> length rows \<le> 10"
proof -
  from assms obtain rows where r: "snapshot_top_processes 10 reported procs = Inr rows"
    and s: "stored = last_topcpu_by_user(user \<mapsto> \<lparr>cache_at = now, cache_rows = rows\<rparr>)"
    by (auto simp: topcpu_def split: sum.splits)
  from r obtain rs where "rows = slice_to 10 (sort_cpu_desc rs)"
    by (rule snapshot_decomposed)
  then have "length rows \<le> 10"
    by (simp add: slice_to_def)
  with s show ?thesis by simp
qed

lemma item_in_range:
  "1 \<le> i \<Longrightarrow> i \<le> int (length xs) \<Longrightarrow> item xs (i - 1) = Some (xs ! nat (i - 1))"
  by (simp add: item_def)

text \<open>
  The lower bound is checked by the declared range only: the callback on its own compares
  the index with the length of the list, and \<^verbatim>\<open>rows[index - 1]\<close> at index 0 would be the last
  row.
\<close>

lemma terminate_callback_below_range:
  "terminate_callback example_host example_cache 1000 7 0
     = (TerminateResult True ''Terminated **worker** (PID 100).'',
        [Resolve 100, ReadName, Terminate, Wait 3, Kill])
   \<and> terminate example_host example_cache 1000 7 0 = (IndexNotInRange, [])"
  by (simp add: terminate_def index_in_Range_def terminate_callback_def example_cache_def
      item_def safe_terminate_pid_def terminate_attempt_def example_host_def PROTECTED_PIDS_def
      SYSTEM_NAMES_def terminated_msg_def str_int_def str_nat.simps digit_char_def)

lemma terminate_rejects:
  assumes "last_topcpu_by_user user = Some cache" and "now - cache_at cache \<le> 600"
    and "index < 1 \<or> int (length (cache_rows cache)) < index"
  shows "terminate host last_topcpu_by_user now user index = (IndexNotInRange, [])
     \<or> terminate host last_topcpu_by_user now user index
         = (IndexOutOfRange (length (cache_rows cache)), [])"
  using assms by (auto simp: terminate_def index_in_Range_def terminate_callback_def)

lemma terminate_selects:
  assumes "last_topcpu_by_user user = Some cache" and "now - cache_at cache \<le> 600"
    and "length (cache_rows cache) \<le> 10"
    and "1 \<le> index" and "index \<le> int (length (cache_rows cache))"
  shows "\<exists>ok msg acts.
           safe_terminate_pid host (row_pid (cache_rows cache ! nat (index - 1))) 3
             = (Inr (ok, msg), acts)
           \<and> terminate host last_topcpu_by_user now user index = (TerminateResult ok msg, acts)"
proof -
  let ?pid = "row_pid (cache_rows cache ! nat (index - 1))"
  obtain r acts where p: "safe_terminate_pid host ?pid 3 = (r, acts)"
    by (cases "safe_terminate_pid host ?pid 3")
  obtain ok msg where r: "r = Inr (ok, msg)"
    using safe_terminate_pid_returns [of host ?pid 3] p by auto
  have i: "item (cache_rows cache) (index - 1) = Some (cache_rows cache ! nat (index - 1))"
    using assms(4,5) by (rule item_in_range)
  have g: "index_in_Range index"
    using assms(3-5) by (simp add: index_in_Range_def)
  from assms i g p r have "terminate host last_topcpu_by_user now user index
      = (TerminateResult ok msg, acts)"
    by (simp add: terminate_def terminate_callback_def Let_def)
  with p r show ?thesis by blast
qed

text \<open>
  C9. Let a user have a stored list of \<open>L\<close> rows that has not expired (a list stored by
  \<^verbatim>\<open>/topcpu\<close> has at most 10 rows). The command with index 0, with any index below 1, or
  with an index greater than \<open>L\<close> is rejected as out of range: the answer is one of the two
  out-of-range answers, never a fault, and no call is made on the host, so no process is
  terminated. An index from 1 to \<open>L\<close> selects the row at that position of the stored list,
  counted from 1, and the answer is the result of \<^verbatim>\<open>safe_terminate_pid\<close> for the pid of that
  row; so only the indices 1 to \<open>L\<close> select a row.
\<close>

theorem terminate_index_lookup:
  assumes "last_topcpu_by_user user = Some cache" and "now - cache_at cache \<le> 600"
    and "length (cache_rows cache) \<le> 10"
  shows "(index = 0 \<or> index < 1 \<or> int (length (cache_rows cache)) < index \<longrightarrow>
           out_of_range (fst (terminate host last_topcpu_by_user now user index))
           \<and> snd (terminate host last_topcpu_by_user now user index) = [])
     \<and> (1 \<le> index \<and> index \<le> int (length (cache_rows cache)) \<longrightarrow>
          (\<exists>ok msg acts.
             safe_terminate_pid host (row_pid (cache_rows cache ! nat (index - 1))) 3
               = (Inr (ok, msg), acts)
             \<and> terminate host last_topcpu_by_user now user index = (TerminateResult ok msg, acts)))
     \<and> (out_of_range (fst (terminate host last_topcpu_by_user now user index))
          \<or> (1 \<le> index \<and> index \<le> int (length (cache_rows cache))))"
proof -
  have a: "out_of_range (fst (terminate host last_topcpu_by_user now user index))
           \<and> snd (terminate host last_topcpu_by_user now user index) = []"
    if "index < 1 \<or> int (length (cache_rows cache)) < index"
    using assms(1,2) that
      terminate_rejects [where last_topcpu_by_user = last_topcpu_by_user and user = user
        and cache = cache and now = now and index = index and host = host]
    by auto
  have b: "\<exists>ok msg acts.
             safe_terminate_pid host (row_pid (cache_rows cache ! nat (index - 1))) 3
               = (Inr (ok, msg), acts)
             \<and> terminate host last_topcpu_by_user now user index = (TerminateResult ok msg, acts)"
    if "1 \<le> index" "index \<le> int (length (cache_rows cache))"
    using assms that
      terminate_selects [where last_topcpu_by_user = last_topcpu_by_user and user = user
        and cache = cache and now = now and index = index and host = host]
    by blast
  have c: "out_of_range (fst (terminate host last_topcpu_by_user now user index))
          \<or> (1 \<le> index \<and> index \<le> int (length (cache_rows cache)))"
    using a by linarith
  from a b c show ?thesis by auto
qed

theorem terminate_index_lookup_witness:
  "example_cache 7
     = Some \<lparr>cache_at = 1000,
             cache_rows = [\<lparr>row_pid = 101, row_name = ''sleeper'', row_cpu = 40\<rparr>,
                           \<lparr>row_pid = 100, row_name = ''worker'', row_cpu = 12\<rparr>]\<rparr>
   \<and> (1200::real) - 1000 \<le> 600
   \<and> length [\<lparr>row_pid = 101, row_name = ''sleeper'', row_cpu = 40\<rparr>,
              \<lparr>row_pid = 100, row_name = ''worker'', row_cpu = 12\<rparr>] \<le> 10
   \<and> terminate example_host example_cache 1200 7 0 = (IndexNotInRange, [])
   \<and> out_of_range IndexNotInRange
   \<and> (2::int) < 3
   \<and> terminate example_host example_cache 1200 7 3 = (IndexOutOfRange 2, [])
   \<and> out_of_range (IndexOutOfRange 2)
   \<and> (1::int) \<le> 2
   \<and> terminate example_host example_cache 1200 7 2
       = (TerminateResult True ''Terminated **worker** (PID 100).'',
          [Resolve 100, ReadName, Terminate, Wait 3, Kill])"
proof -
  let ?cache = "\<lparr>cache_at = 1000,
             cache_rows = [\<lparr>row_pid = 101, row_name = ''sleeper'', row_cpu = 40\<rparr>,
                           \<lparr>row_pid = 100, row_name = ''worker'', row_cpu = 12\<rparr>]\<rparr>"
  have h: "example_cache 7 = Some ?cache" "(1200::real) - cache_at ?cache \<le> 600"
    "length (cache_rows ?cache) \<le> 10"
    by (simp_all add: example_cache_def)
  show ?thesis
    using h
      terminate_index_lookup [where last_topcpu_by_user = example_cache and user = 7
        and cache = ?cache and now = 1200 and index = 0 and host = example_host]
      terminate_index_lookup [where last_topcpu_by_user = example_cache and user = 7
        and cache = ?cache and now = 1200 and index = 3 and host = example_host]
      terminate_index_lookup [where last_topcpu_by_user = example_cache and user = 7
        and cache = ?cache and now = 1200 and index = 2 and host = example_host]
    by (auto simp: terminate_def index_in_Range_def terminate_callback_def
        safe_terminate_pid_def terminate_attempt_def example_host_def PROTECTED_PIDS_def
        SYSTEM_NAMES_def terminated_msg_def str_int_def str_nat.simps digit_char_def item_def)
qed

end
